theory Spec2Isabelle
  imports Complex_Main
begin

section \<open>The latency benchmark of the notebook\<close>

text \<open>
  The notebook defines one function of its own, \<^verbatim>\<open>measure_latency(pipe)\<close>; everything
  else is a straight line of calls into libraries. The function calls three things it does
  not define: the pipeline \<^verbatim>\<open>pipe\<close> it is given, the clock \<^verbatim>\<open>perf_counter\<close>, and the
  numpy reductions. They are modelled as follows.

  \<^item> A pipeline is a callable with a state of its own (caches, lazily created sessions)
    that may raise: a function from the argument and the state to an exception or a
    result with the next state.
  \<^item> The clock is an oracle: \<open>clock w i\<close> is the value that the \<open>i\<close>-th call of
    \<^verbatim>\<open>perf_counter()\<close> returns, and \<open>reads w\<close> counts the calls made so far.
  \<^item> Python floats are read as real numbers. The function itself only subtracts two
    readings and multiplies by 1000.
  \<^item> Every call that leaves the function is appended to \<open>trace w\<close>, so that the order
    of invocations and clock readings can be stated.
\<close>

datatype event =
    Invoked string   \<comment> \<open>\<^verbatim>\<open>pipe(arg)\<close> returned\<close>
  | Clock real       \<comment> \<open>\<^verbatim>\<open>perf_counter()\<close> returned this reading\<close>

record 'p world =
  pipe_state :: 'p
  clock :: "nat \<Rightarrow> real"
  reads :: nat
  trace :: "event list"

type_synonym ('p, 'x, 'r) pipeline = "string \<Rightarrow> 'p \<Rightarrow> 'x + ('r \<times> 'p)"

text \<open>
  The numpy reductions and the two float formats of the f-string (\<^verbatim>\<open>{x}\<close> and
  \<^verbatim>\<open>{x:.2f}\<close>) belong to the libraries; the function is modelled for any of them.
\<close>

record lib =
  np_mean :: "real list \<Rightarrow> real"
  np_std :: "real list \<Rightarrow> real"
  np_percentile :: "real list \<Rightarrow> real \<Rightarrow> real"
  format_float :: "real \<Rightarrow> string"
  format_2f :: "real \<Rightarrow> string"

definition payload :: string where
  "payload = concat (replicate 2
     ''Hello my name is Philipp. I am getting in touch with you because i didn't get a response from you. What do I need to do to get my new card which I have requested 2 weeks ago? Please help me and answer this email in the next 7 days. Best regards and have a nice weekend '')"

definition call_pipe ::
  "('p, 'x, 'r) pipeline \<Rightarrow> string \<Rightarrow> 'p world \<Rightarrow> 'x + ('r \<times> 'p world)" where
  "call_pipe pipe arg w =
     (case pipe arg (pipe_state w) of
        Inl x \<Rightarrow> Inl x
      | Inr (r, s) \<Rightarrow> Inr (r, w\<lparr>pipe_state := s, trace := trace w @ [Invoked arg]\<rparr>))"

definition perf_counter :: "'p world \<Rightarrow> real \<times> 'p world" where
  "perf_counter w =
     (clock w (reads w),
      w\<lparr>reads := Suc (reads w), trace := trace w @ [Clock (clock w (reads w))]\<rparr>)"

text \<open>\<^verbatim>\<open>for _ in range(n): _ = pipe(payload)\<close>\<close>

fun warm_up :: "('p, 'x, 'r) pipeline \<Rightarrow> nat \<Rightarrow> 'p world \<Rightarrow> 'x + 'p world" where
  "warm_up pipe 0 w = Inr w"
| "warm_up pipe (Suc n) w =
     (case call_pipe pipe payload w of
        Inl x \<Rightarrow> Inl x
      | Inr (_, w') \<Rightarrow> warm_up pipe n w')"

text \<open>
  \<^verbatim>\<open>
  for _ in range(n):
      start_time = perf_counter()
      _ =  pipe(payload)
      latency = perf_counter() - start_time
      latencies.append(latency)
  \<close>
\<close>

fun timed_run ::
  "('p, 'x, 'r) pipeline \<Rightarrow> nat \<Rightarrow> real list \<Rightarrow> 'p world \<Rightarrow> 'x + (real list \<times> 'p world)" where
  "timed_run pipe 0 latencies w = Inr (latencies, w)"
| "timed_run pipe (Suc n) latencies w =
     (case perf_counter w of
        (start_time, w1) \<Rightarrow>
          (case call_pipe pipe payload w1 of
             Inl x \<Rightarrow> Inl x
           | Inr (_, w2) \<Rightarrow>
               (case perf_counter w2 of
                  (end_time, w3) \<Rightarrow>
                    let latency = end_time - start_time
                    in timed_run pipe n (latencies @ [latency]) w3)))"

definition measure_latency ::
  "lib \<Rightarrow> ('p, 'x, 'r) pipeline \<Rightarrow> 'p world \<Rightarrow> 'x + ((string \<times> real) \<times> 'p world)" where
  "measure_latency np pipe w =
     (case warm_up pipe 10 w of
        Inl x \<Rightarrow> Inl x
      | Inr w1 \<Rightarrow>
          (case timed_run pipe 300 [] w1 of
             Inl x \<Rightarrow> Inl x
           | Inr (latencies, w2) \<Rightarrow>
               let time_avg_ms = 1000 * np_mean np latencies;
                   time_std_ms = 1000 * np_std np latencies;
                   time_p95_ms = 1000 * np_percentile np latencies 95
               in Inr ((''P95 latency (ms) - '' @ format_float np time_p95_ms
                          @ ''; Average latency (ms) - '' @ format_2f np time_avg_ms
                          @ '' +'' @ [CHR 0x5C] @ ''- '' @ format_2f np time_std_ms @ '';'',
                        time_p95_ms), w2)))"


subsection \<open>Vocabulary for the statements\<close>

text \<open>
  \<open>invocations pipe arg n s\<close> is what \<open>n\<close> successive calls \<^verbatim>\<open>pipe(arg)\<close> do to the
  pipeline's state \<open>s\<close>: the first exception raised, or the state after the last call.
\<close>

fun invocations :: "('p, 'x, 'r) pipeline \<Rightarrow> string \<Rightarrow> nat \<Rightarrow> 'p \<Rightarrow> 'x + 'p" where
  "invocations pipe arg 0 s = Inr s"
| "invocations pipe arg (Suc n) s =
     (case pipe arg s of Inl x \<Rightarrow> Inl x | Inr (_, s') \<Rightarrow> invocations pipe arg n s')"

text \<open>
  With \<open>r\<close> clock readings made before the timed run, its \<open>i\<close>-th round reads the clock
  at positions \<open>r + 2 * i\<close> (before the call) and \<open>r + 2 * i + 1\<close> (after it).
  \<open>samples\<close> lists the differences, \<open>timed_events\<close> the calls as they happen.
\<close>

definition samples :: "(nat \<Rightarrow> real) \<Rightarrow> nat \<Rightarrow> nat \<Rightarrow> real list" where
  "samples c r n = map (\<lambda>i. c (r + 2 * i + 1) - c (r + 2 * i)) [0..<n]"

definition timed_events :: "(nat \<Rightarrow> real) \<Rightarrow> nat \<Rightarrow> nat \<Rightarrow> event list" where
  "timed_events c r n =
     concat (map (\<lambda>i. [Clock (c (r + 2 * i)), Invoked payload, Clock (c (r + 2 * i + 1))])
               [0..<n])"

definition invocation_count :: "event list \<Rightarrow> nat" where
  "invocation_count es =
     length (filter (\<lambda>e. case e of Invoked _ \<Rightarrow> True | Clock _ \<Rightarrow> False) es)"

subsection \<open>A concrete run\<close>

text \<open>
  An instance on which the function can be evaluated: the reductions as numpy documents
  them, read over the reals (arithmetic mean, population standard deviation, percentile
  by linear interpolation between the two nearest ranks), a pipeline that counts its
  calls and never raises, and a clock that advances by one second per reading. The two
  float formats are placeholders.
\<close>

definition ideal_mean :: "real list \<Rightarrow> real" where
  "ideal_mean xs = sum_list xs / real (length xs)"

definition ideal_std :: "real list \<Rightarrow> real" where
  "ideal_std xs = sqrt (ideal_mean (map (\<lambda>x. (x - ideal_mean xs)\<^sup>2) xs))"

definition ideal_percentile :: "real list \<Rightarrow> real \<Rightarrow> real" where
  "ideal_percentile xs q =
     (let s = sort xs;
          h = real (length xs - 1) * q / 100;
          lo = nat \<lfloor>h\<rfloor>;
          hi = min (Suc lo) (length xs - 1)
      in s ! lo + (h - real lo) * (s ! hi - s ! lo))"

definition ideal_np :: lib where
  "ideal_np = \<lparr>np_mean = ideal_mean, np_std = ideal_std, np_percentile = ideal_percentile,
                format_float = (\<lambda>x. ''<float>''), format_2f = (\<lambda>x. ''<float:.2f>'')\<rparr>"

definition counting_pipe :: "(nat, unit, nat) pipeline" where
  "counting_pipe arg s = Inr (length arg, Suc s)"

definition steady_world :: "nat world" where
  "steady_world = \<lparr>pipe_state = 0, clock = (\<lambda>i. real i), reads = 0, trace = []\<rparr>"

section \<open>The stages of the notebook\<close>



















section \<open>Properties of the latency benchmark\<close>

subsection \<open>The two loops\<close>

lemma upt_0_Suc: "[0..<Suc n] = 0 # map Suc [0..<n]"
  by (simp add: upt_conv_Cons map_Suc_upt del: upt_Suc)

lemma samples_Suc: "samples c r (Suc n) = (c (Suc r) - c r) # samples c (Suc (Suc r)) n"
  unfolding samples_def upt_0_Suc by (simp add: comp_def)

lemma timed_events_Suc:
  "timed_events c r (Suc n) =
     Clock (c r) # Invoked payload # Clock (c (Suc r)) # timed_events c (Suc (Suc r)) n"
  unfolding timed_events_def upt_0_Suc by (simp add: comp_def)

lemma length_samples [simp]: "length (samples c r n) = n"
  by (simp add: samples_def)

lemma samples_nonneg:
  assumes "\<forall>i. c i \<le> c (Suc i)"
  shows "\<forall>x \<in> set (samples c r n). 0 \<le> x"
  using assms by (auto simp: samples_def)

lemma invocation_count_append [simp]:
  "invocation_count (es @ fs) = invocation_count es + invocation_count fs"
  by (simp add: invocation_count_def)

lemma invocation_count_replicate [simp]:
  "invocation_count (replicate n (Invoked a)) = n"
  by (simp add: invocation_count_def)

lemma invocation_count_timed_events [simp]:
  "invocation_count (timed_events c r n) = n"
proof (induction n arbitrary: r)
  case 0
  show ?case by (simp add: timed_events_def invocation_count_def)
next
  case (Suc n)
  have "invocation_count (timed_events c r (Suc n)) =
          Suc (invocation_count (timed_events c (Suc (Suc r)) n))"
    by (simp add: timed_events_Suc invocation_count_def)
  then show ?case by (simp add: Suc.IH)
qed

text \<open>
  The warm-up loop calls the pipeline \<open>n\<close> times and never reads the clock: it leaves
  \<open>reads\<close> as it was and appends \<open>n\<close> invocations to the trace.
\<close>

lemma warm_up_eq:
  "warm_up pipe n w =
     (case invocations pipe payload n (pipe_state w) of
        Inl x \<Rightarrow> Inl x
      | Inr s \<Rightarrow> Inr (w\<lparr>pipe_state := s, trace := trace w @ replicate n (Invoked payload)\<rparr>))"
proof (induction n arbitrary: w)
  case 0
  show ?case by simp
next
  case (Suc n)
  show ?case
    by (simp add: call_pipe_def Suc.IH replicate_app_Cons_same split: sum.split prod.split)
qed

text \<open>
  The timed loop appends one sample per round, the difference of the two readings around
  that round's call.
\<close>

lemma timed_run_eq:
  "timed_run pipe n latencies w =
     (case invocations pipe payload n (pipe_state w) of
        Inl x \<Rightarrow> Inl x
      | Inr s \<Rightarrow>
          Inr (latencies @ samples (clock w) (reads w) n,
               w\<lparr>pipe_state := s, reads := reads w + 2 * n,
                 trace := trace w @ timed_events (clock w) (reads w) n\<rparr>))"
proof (induction n arbitrary: latencies w)
  case 0
  show ?case by (simp add: samples_def timed_events_def)
next
  case (Suc n)
  show ?case
    by (simp add: call_pipe_def perf_counter_def Suc.IH samples_Suc timed_events_Suc
        split: sum.split prod.split)
qed

lemma invocations_add:
  "invocations pipe arg (m + n) s =
     (case invocations pipe arg m s of Inl x \<Rightarrow> Inl x | Inr s' \<Rightarrow> invocations pipe arg n s')"
  by (induction m arbitrary: s) (simp_all split: sum.split prod.split)

lemma invocations_split:
  assumes "invocations pipe arg (m + n) s = Inr s'"
  obtains s1 where "invocations pipe arg m s = Inr s1" and "invocations pipe arg n s1 = Inr s'"
  using assms by (auto simp: invocations_add split: sum.splits)

lemma loops_return:
  assumes "invocations pipe payload 310 (pipe_state w) = Inr s"
  shows "\<exists>s1. warm_up pipe 10 w =
            Inr (w\<lparr>pipe_state := s1, trace := trace w @ replicate 10 (Invoked payload)\<rparr>)
        \<and> timed_run pipe 300 []
             (w\<lparr>pipe_state := s1, trace := trace w @ replicate 10 (Invoked payload)\<rparr>) =
            Inr (samples (clock w) (reads w) 300,
                 w\<lparr>pipe_state := s, reads := reads w + 600,
                   trace := trace w @ replicate 10 (Invoked payload)
                              @ timed_events (clock w) (reads w) 300\<rparr>)"
proof -
  from assms have "invocations pipe payload (10 + 300) (pipe_state w) = Inr s" by simp
  then obtain s1 where a: "invocations pipe payload 10 (pipe_state w) = Inr s1"
    and b: "invocations pipe payload 300 s1 = Inr s"
    by (rule invocations_split)
  show ?thesis
    by (rule exI [of _ s1]) (simp add: warm_up_eq timed_run_eq a b)
qed

text \<open>
  An exception raised by any of the 310 calls leaves \<^verbatim>\<open>measure_latency\<close> as it is: the
  function has no handler and returns nothing.
\<close>

lemma measure_latency_raises:
  assumes "invocations pipe payload 310 (pipe_state w) = Inl x"
  shows "measure_latency np pipe w = Inl x"
proof -
  have "(case invocations pipe payload 10 (pipe_state w) of
           Inl x \<Rightarrow> Inl x | Inr s' \<Rightarrow> invocations pipe payload 300 s') = Inl x"
    using assms invocations_add [of pipe payload 10 300 "pipe_state w"] by simp
  then show ?thesis
    by (auto simp: measure_latency_def warm_up_eq timed_run_eq split: sum.splits)
qed

subsection \<open>The concrete run\<close>

lemma invocations_counting_pipe: "invocations counting_pipe arg n s = Inr (s + n)"
  by (induction n arbitrary: s) (simp_all add: counting_pipe_def)

lemma samples_steady: "samples (\<lambda>i. real i) r n = replicate n 1"
  by (simp add: samples_def map_replicate_const)

lemma ideal_percentile_replicate:
  "ideal_percentile (replicate 300 x) 95 = x"
proof -
  have s: "sort (replicate 300 x) = replicate 300 x"
    by (rule sorted_sort_id) (simp add: sorted_replicate)
  have f: "\<lfloor>(299 * 95 / 100 :: real)\<rfloor> = 284" by simp
  show ?thesis
    unfolding ideal_percentile_def Let_def s by (simp add: f)
qed

subsection \<open>Warm-up is excluded from the statistics\<close>

text \<open>
  Claim C1. For every pipeline whose 310 calls return, \<^verbatim>\<open>measure_latency\<close> first invokes
  the pipeline ten times without reading the clock (the trace gains ten invocations and
  no clock reading, so no warm-up timing exists), then records one sample per measured
  invocation, the difference of the clock readings just after and just before it. The
  statistics it returns are the library's mean, standard deviation and 95th percentile of
  exactly these 300 samples, each scaled to milliseconds: the mean and the deviation
  inside the message, the percentile both there and as the second component.
\<close>

theorem measure_latency_statistics:
  assumes "invocations pipe payload 310 (pipe_state w) = Inr s"
  shows "measure_latency np pipe w =
     Inr ((''P95 latency (ms) - ''
             @ format_float np (1000 * np_percentile np (samples (clock w) (reads w) 300) 95)
             @ ''; Average latency (ms) - ''
             @ format_2f np (1000 * np_mean np (samples (clock w) (reads w) 300))
             @ '' +'' @ [CHR 0x5C] @ ''- ''
             @ format_2f np (1000 * np_std np (samples (clock w) (reads w) 300)) @ '';'',
           1000 * np_percentile np (samples (clock w) (reads w) 300) 95),
          w\<lparr>pipe_state := s, reads := reads w + 600,
            trace := trace w @ replicate 10 (Invoked payload)
                       @ timed_events (clock w) (reads w) 300\<rparr>)"
proof -
  from loops_return [OF assms] obtain s1 where
    a: "warm_up pipe 10 w =
            Inr (w\<lparr>pipe_state := s1, trace := trace w @ replicate 10 (Invoked payload)\<rparr>)"
    and b: "timed_run pipe 300 []
             (w\<lparr>pipe_state := s1, trace := trace w @ replicate 10 (Invoked payload)\<rparr>) =
            Inr (samples (clock w) (reads w) 300,
                 w\<lparr>pipe_state := s, reads := reads w + 600,
                   trace := trace w @ replicate 10 (Invoked payload)
                              @ timed_events (clock w) (reads w) 300\<rparr>)"
    by blast
  show ?thesis
    by (simp add: measure_latency_def a b Let_def)
qed

text \<open>
  On the concrete run every measured call takes one second, so the reported percentile is
  1000 ms; the pipeline has been called 310 times and the clock read 600 times.
\<close>

theorem measure_latency_statistics_witness:
  "invocations counting_pipe payload 310 (pipe_state steady_world) = Inr 310
   \<and> (case measure_latency ideal_np counting_pipe steady_world of
        Inl _ \<Rightarrow> False
      | Inr ((msg, p95), w) \<Rightarrow>
          p95 = 1000 \<and> pipe_state w = 310 \<and> reads w = 600
          \<and> trace w = replicate 10 (Invoked payload) @ timed_events (\<lambda>i. real i) 0 300)"
proof -
  have h: "invocations counting_pipe payload 310 (pipe_state steady_world) = Inr 310"
    by (simp add: invocations_counting_pipe steady_world_def)
  show ?thesis
    using h measure_latency_statistics [OF h, of ideal_np]
    by (simp add: steady_world_def samples_steady ideal_np_def ideal_percentile_replicate)
qed

subsection \<open>Counts, sample list and second return value\<close>

text \<open>
  Claim C10. For every pipeline whose 310 calls return, and a clock that never runs
  backwards (which \<^verbatim>\<open>perf_counter\<close> guarantees), \<^verbatim>\<open>measure_latency\<close> performs exactly 10
  warm-up invocations followed by exactly 300 timed invocations: the warm-up loop leaves
  the pipeline in the state \<open>s1\<close> that ten calls produce and reads no clock, and the timed
  loop leaves it in the state that 300 further calls produce, with two clock readings
  around each call. The list \<^verbatim>\<open>latencies\<close> the timed loop returns is the list of the 300
  differences of those readings; it has length 300, every sample in it is nonnegative,
  and the second return value is 1000 times the library's 95th percentile of that list.
\<close>

theorem measure_latency_counts:
  assumes "invocations pipe payload 310 (pipe_state w) = Inr s"
    and "\<forall>i. clock w i \<le> clock w (Suc i)"
  shows "\<exists>s1 w1 latencies w2 msg.
      invocations pipe payload 10 (pipe_state w) = Inr s1
    \<and> invocations pipe payload 300 s1 = Inr s
    \<and> w1 = w\<lparr>pipe_state := s1, trace := trace w @ replicate 10 (Invoked payload)\<rparr>
    \<and> warm_up pipe 10 w = Inr w1
    \<and> latencies = samples (clock w) (reads w) 300
    \<and> w2 = w\<lparr>pipe_state := s, reads := reads w + 600,
               trace := trace w1 @ timed_events (clock w) (reads w) 300\<rparr>
    \<and> timed_run pipe 300 [] w1 = Inr (latencies, w2)
    \<and> invocation_count (trace w1) = invocation_count (trace w) + 10
    \<and> invocation_count (trace w2) = invocation_count (trace w1) + 300
    \<and> length latencies = 300
    \<and> (\<forall>x \<in> set latencies. 0 \<le> x)
    \<and> measure_latency np pipe w = Inr ((msg, 1000 * np_percentile np latencies 95), w2)"
proof -
  from assms(1) have "invocations pipe payload (10 + 300) (pipe_state w) = Inr s" by simp
  then obtain s1 where a: "invocations pipe payload 10 (pipe_state w) = Inr s1"
    and b: "invocations pipe payload 300 s1 = Inr s"
    by (rule invocations_split)
  let ?w1 = "w\<lparr>pipe_state := s1, trace := trace w @ replicate 10 (Invoked payload)\<rparr>"
  let ?L = "samples (clock w) (reads w) 300"
  let ?w2 = "w\<lparr>pipe_state := s, reads := reads w + 600,
               trace := trace ?w1 @ timed_events (clock w) (reads w) 300\<rparr>"
  have c: "warm_up pipe 10 w = Inr ?w1"
    by (simp add: warm_up_eq a)
  have d: "timed_run pipe 300 [] ?w1 = Inr (?L, ?w2)"
    by (simp add: timed_run_eq b)
  have e: "\<forall>x \<in> set ?L. 0 \<le> x"
    by (rule samples_nonneg [OF assms(2)])
  have "\<exists>msg. measure_latency np pipe w = Inr ((msg, 1000 * np_percentile np ?L 95), ?w2)"
    by (simp add: measure_latency_def c d Let_def)
  then obtain msg where
    f: "measure_latency np pipe w = Inr ((msg, 1000 * np_percentile np ?L 95), ?w2)" ..
  have g: "invocation_count (trace ?w1) = invocation_count (trace w) + 10"
    "invocation_count (trace ?w2) = invocation_count (trace ?w1) + 300"
    "length ?L = 300"
    by simp_all
  show ?thesis
    apply (rule exI [of _ s1])
    apply (rule exI [of _ ?w1])
    apply (rule exI [of _ ?L])
    apply (rule exI [of _ ?w2])
    apply (rule exI [of _ msg])
    using a b c d e f g apply blast
    done
qed

text \<open>
  On the concrete run the warm-up leaves the counting pipeline in state 10 and the timed
  loop in state 310; every sample is one second.
\<close>

theorem measure_latency_counts_witness:
  "invocations counting_pipe payload 310 (pipe_state steady_world) = Inr 310
   \<and> (\<forall>i. clock steady_world i \<le> clock steady_world (Suc i))
   \<and> (\<exists>w1 w2 msg.
      warm_up counting_pipe 10 steady_world = Inr w1
    \<and> pipe_state w1 = 10
    \<and> timed_run counting_pipe 300 [] w1 = Inr (replicate 300 1, w2)
    \<and> pipe_state w2 = 310
    \<and> invocation_count (trace w2) = 310
    \<and> measure_latency ideal_np counting_pipe steady_world = Inr ((msg, 1000), w2))"
proof -
  have h: "invocations counting_pipe payload 310 (pipe_state steady_world) = Inr 310"
    by (simp add: invocations_counting_pipe steady_world_def)
  have m: "\<forall>i. clock steady_world i \<le> clock steady_world (Suc i)"
    by (simp add: steady_world_def)
  from measure_latency_counts [OF h m, of ideal_np]
  obtain s1 w1 latencies w2 msg where
    r: "invocations counting_pipe payload 10 (pipe_state steady_world) = Inr s1"
      "w1 = steady_world\<lparr>pipe_state := s1,
              trace := trace steady_world @ replicate 10 (Invoked payload)\<rparr>"
      "warm_up counting_pipe 10 steady_world = Inr w1"
      "latencies = samples (clock steady_world) (reads steady_world) 300"
      "w2 = steady_world\<lparr>pipe_state := 310, reads := reads steady_world + 600,
              trace := trace w1 @ timed_events (clock steady_world) (reads steady_world) 300\<rparr>"
      "timed_run counting_pipe 300 [] w1 = Inr (latencies, w2)"
      "invocation_count (trace w1) = invocation_count (trace steady_world) + 10"
      "invocation_count (trace w2) = invocation_count (trace w1) + 300"
      "measure_latency ideal_np counting_pipe steady_world =
         Inr ((msg, 1000 * np_percentile ideal_np latencies 95), w2)"
    by blast
  from r(1) have s1: "s1 = 10"
    by (simp add: invocations_counting_pipe steady_world_def)
  have l: "latencies = replicate 300 1"
    using r(4) by (simp add: steady_world_def samples_steady)
  have p: "1000 * np_percentile ideal_np latencies 95 = 1000"
    by (simp add: l ideal_np_def ideal_percentile_replicate)
  have c: "invocation_count (trace w2) = 310"
    using r(7) r(8) by (simp add: steady_world_def invocation_count_def)
  have "warm_up counting_pipe 10 steady_world = Inr w1 \<and> pipe_state w1 = 10
      \<and> timed_run counting_pipe 300 [] w1 = Inr (replicate 300 1, w2)
      \<and> pipe_state w2 = 310 \<and> invocation_count (trace w2) = 310
      \<and> measure_latency ideal_np counting_pipe steady_world = Inr ((msg, 1000), w2)"
    using r(2) r(3) r(5) r(6) r(9) s1 l p c by simp
  then show ?thesis using h m by blast
qed

section \<open>Properties of the stages\<close>









end
